theory Spec2Isabelle
  imports Main "HOL-Library.Word"
begin

section \<open>The daily file log writer of log4go (dailyfilelog.go)\<close>

subsection \<open>Time, records, errors\<close>

text \<open>
  A \<open>time.Time\<close> value is represented by the calendar fields of its instant in UTC.
  The source reads calendar fields only from values it has passed through \<open>UTC()\<close>,
  so the location of a value is not modelled and \<open>UTC\<close> leaves the fields as they are.
\<close>

record Time =
  Year :: int
  Month :: int
  Day :: int
  Clock :: nat

definition UTC :: "Time \<Rightarrow> Time" where
  "UTC t = t"

text \<open>
  Modelled from the spec: the type LogRecord is declared in a file of the repository
  that is not part of the sources at hand. The spec gives it a creation timestamp,
  a severity level, a source tag and a message.
\<close>

record LogRecord =
  Level :: int
  Created :: Time
  Source :: string
  Message :: string

text \<open>The Go literal \<open>&LogRecord{Created: t}\<close>: every other field has its zero value.\<close>

definition LogRecord_Created :: "Time \<Rightarrow> LogRecord" where
  "LogRecord_Created t = \<lparr>Level = 0, Created = t, Source = [], Message = []\<rparr>"

text \<open>
  Go error values. \<open>Errorf f err\<close> is the value of \<open>fmt.Errorf(f, err)\<close>, kept with
  its format string and its argument.
\<close>

datatype error =
    ErrInvalid
  | ErrExist
  | ErrNotExist
  | SysError string
  | Errorf string error

fun os_IsExist :: "error option \<Rightarrow> bool" where
  "os_IsExist (Some ErrExist) = True"
| "os_IsExist _ = False"

datatype panic =
    Panic_error error
  | Panic_close_of_closed_channel
  | Panic_send_on_closed_channel

subsection \<open>The operating system as seen by the writer\<close>

type_synonym handle = nat

datatype FileInfo = FileInfo

text \<open>
  Every call that leaves the process is recorded, with the reply it got, in the order
  in which it was made. \<open>Stderr f name err\<close> is \<open>fmt.Fprintf(os.Stderr, f, name, err)\<close>.
\<close>

datatype syscall =
    Lstat string
  | Rename string string
  | Run string "string list" string
  | OpenFile string
  | FileWrite handle string
  | FileClose handle
  | FileSync handle
  | Stderr string string error

type_synonym event = "syscall \<times> error option"

text \<open>
  The world outside the writer: \<open>clock\<close> gives the successive readings of
  \<open>time.Now()\<close>, \<open>reply k\<close> is what the environment answers to the \<open>k\<close>-th call
  (\<open>None\<close> is success), \<open>log\<close> holds the calls made so far, oldest first.
  Two functions the source calls and does not define are parameters:
  the record formatter of the repository (Modelled from the spec: FormatLogRecord
  is an opaque function from a template and a record to the formatted text) and
  \<open>filepath.Dir\<close> of the standard library.
\<close>

record world =
  clock :: "nat \<Rightarrow> Time"
  ticks :: nat
  reply :: "nat \<Rightarrow> error option"
  log :: "event list"
  FormatLogRecord :: "string \<Rightarrow> LogRecord \<Rightarrow> string"
  filepath_Dir :: "string \<Rightarrow> string"

definition time_Now :: "world \<Rightarrow> Time \<times> world" where
  "time_Now e = (clock e (ticks e), e\<lparr>ticks := Suc (ticks e)\<rparr>)"

definition call :: "syscall \<Rightarrow> world \<Rightarrow> error option \<times> world" where
  "call c e = (let r = reply e (length (log e)) in (r, e\<lparr>log := log e @ [(c, r)]\<rparr>))"

text \<open>The calls made between two states of the world.\<close>

definition emitted :: "world \<Rightarrow> world \<Rightarrow> event list" where
  "emitted e e' = drop (length (log e)) (log e')"

text \<open>
  \<open>os.Lstat\<close> returns a file info or an error. lstat(2) never fails with an error for
  which \<open>os.IsExist\<close> holds, and the source inspects nothing else of the error, so every
  failure is returned as \<open>ErrNotExist\<close>.
\<close>

definition os_Lstat :: "string \<Rightarrow> world \<Rightarrow> (FileInfo option \<times> error option) \<times> world" where
  "os_Lstat p e =
     (case call (Lstat p) e of
        (None, e') \<Rightarrow> ((Some FileInfo, None), e')
      | (Some x, e') \<Rightarrow> ((None, Some ErrNotExist), e'))"

definition os_Rename :: "string \<Rightarrow> string \<Rightarrow> world \<Rightarrow> error option \<times> world" where
  "os_Rename a b e = call (Rename a b) e"

definition cmd_Run :: "string \<Rightarrow> string list \<Rightarrow> string \<Rightarrow> world \<Rightarrow> error option \<times> world" where
  "cmd_Run name args dir e = call (Run name args dir) e"

text \<open>A successful open yields a fresh handle: the position of the open in the log.\<close>

definition os_OpenFile :: "string \<Rightarrow> world \<Rightarrow> (error + handle) \<times> world" where
  "os_OpenFile p e =
     (case call (OpenFile p) e of
        (None, e') \<Rightarrow> (Inr (length (log e)), e')
      | (Some x, e') \<Rightarrow> (Inl x, e'))"

text \<open>The methods of \<open>*os.File\<close> return \<open>ErrInvalid\<close> on a nil receiver.\<close>

definition fmt_Fprint :: "handle option \<Rightarrow> string \<Rightarrow> world \<Rightarrow> error option \<times> world" where
  "fmt_Fprint f s e = (case f of None \<Rightarrow> (Some ErrInvalid, e) | Some h \<Rightarrow> call (FileWrite h s) e)"

definition File_Close :: "handle option \<Rightarrow> world \<Rightarrow> error option \<times> world" where
  "File_Close f e = (case f of None \<Rightarrow> (Some ErrInvalid, e) | Some h \<Rightarrow> call (FileClose h) e)"

definition File_Sync :: "handle option \<Rightarrow> world \<Rightarrow> error option \<times> world" where
  "File_Sync f e = (case f of None \<Rightarrow> (Some ErrInvalid, e) | Some h \<Rightarrow> call (FileSync h) e)"

definition report :: "string \<Rightarrow> error \<Rightarrow> world \<Rightarrow> world" where
  "report name err e = snd (call (Stderr ''DailyFileLogWriter(%q): %s\<newline>'' name err) e)"

subsection \<open>Formatting the archive name\<close>

text \<open>The decimal digits of a natural number, and the verb \<open>%0nd\<close> of \<open>fmt.Sprintf\<close>.\<close>

function digits :: "nat \<Rightarrow> string" where
  "digits n = (if n < 10 then [''0123456789'' ! n] else digits (n div 10) @ [''0123456789'' ! (n mod 10)])"
  by pat_completeness auto
termination
  by (relation "measure id") auto

definition pad0 :: "nat \<Rightarrow> int \<Rightarrow> string" where
  "pad0 n i =
     (if i < 0
      then CHR ''-'' # replicate (n - 1 - length (digits (nat (- i)))) (CHR ''0'') @ digits (nat (- i))
      else replicate (n - length (digits (nat i))) (CHR ''0'') @ digits (nat i))"

text \<open>\<open>fmt.Sprintf("%s.%04d-%02d-%02d", name, y, m, d)\<close>\<close>

definition Sprintf_archive :: "string \<Rightarrow> int \<Rightarrow> int \<Rightarrow> int \<Rightarrow> string" where
  "Sprintf_archive name y m d = name @ ''.'' @ pad0 4 y @ ''-'' @ pad0 2 m @ ''-'' @ pad0 2 d"

subsection \<open>The writer\<close>

text \<open>
  The struct. The channel \<open>rec\<close> is its buffer and whether it has been closed; the
  unbuffered channel \<open>rot\<close> holds nothing and has no field.
\<close>

record DailyFileLogWriter =
  rec :: "LogRecord list"
  rec_closed :: bool
  filename :: string
  filedate :: Time
  "file" :: "handle option"
  format :: string
  header :: string
  trailer :: string
  rotate_limit :: "64 word"

text \<open>
  \<open>LogWrite\<close> sends the record on the channel; a send on a closed channel panics.
  The capacity of the channel, a constant the source does not define, is not
  modelled: a send that would wait on a full buffer is taken after the wait.
  \<open>Rotate\<close> sends on \<open>rot\<close>; the goroutine receives it as the message \<open>RotSignal\<close> below.
\<close>

definition LogWrite :: "DailyFileLogWriter \<Rightarrow> LogRecord \<Rightarrow> panic + DailyFileLogWriter" where
  "LogWrite w r =
     (if rec_closed w then Inl Panic_send_on_closed_channel
      else Inr (w\<lparr>rec := rec w @ [r]\<rparr>))"

text \<open>
  \<open>Close\<close> closes the channel and syncs the file, in the caller's thread; it does
  not wait for the goroutine. Closing a closed channel panics.
\<close>

definition Close :: "DailyFileLogWriter \<Rightarrow> world \<Rightarrow> panic + (DailyFileLogWriter \<times> world)" where
  "Close w e =
     (if rec_closed w then Inl Panic_close_of_closed_channel
      else Inr (w\<lparr>rec_closed := True\<rparr>, snd (File_Sync (file w) e)))"

definition intRotate :: "DailyFileLogWriter \<Rightarrow> world \<Rightarrow> error option \<times> DailyFileLogWriter \<times> world" where
  "intRotate w e =
     (let e1 = (if file w \<noteq> None
                then (let (t, ea) = time_Now e;
                          (_, eb) = fmt_Fprint (file w) (FormatLogRecord e (trailer w) (LogRecord_Created t)) ea;
                          (_, ec) = File_Close (file w) eb
                      in ec)
                else e);
          ((fi, err), e2) = os_Lstat (filename w) e1;
          (failed, e3) =
            (if (fi \<noteq> None \<or> os_IsExist err) \<and> rotate_limit w > 0
             then (let fname = Sprintf_archive (filename w) (Year (filedate w)) (Month (filedate w)) (Day (filedate w))
                   in case os_Rename (filename w) fname e2 of
                        (Some err, ea) \<Rightarrow> (Some (Errorf ''Rotate: %s\<newline>'' err), ea)
                      | (None, ea) \<Rightarrow> cmd_Run ''gzip'' [''--fast'', ''--force'', fname] (filepath_Dir e fname) ea)
             else (None, e2))
      in case failed of
           Some err \<Rightarrow> (Some err, w, e3)
         | None \<Rightarrow>
            (case os_OpenFile (filename w) e3 of
               (Inl err, e4) \<Rightarrow> (Some err, w, e4)
             | (Inr fd, e4) \<Rightarrow>
                 (let (t, e5) = time_Now e4;
                      w' = w\<lparr>filedate := UTC t, file := Some fd\<rparr>;
                      (_, e6) = fmt_Fprint (file w') (FormatLogRecord e (header w') (LogRecord_Created (filedate w'))) e5
                  in (None, w', e6))))"

text \<open>
  The constructor. It panics when the first rotation fails; the two statements after
  the panic are never reached. On success the goroutine below is started.
\<close>

definition NewDailyFileLogWriter ::
  "string \<Rightarrow> 64 word \<Rightarrow> world \<Rightarrow> (panic \<times> world) + (DailyFileLogWriter \<times> world)" where
  "NewDailyFileLogWriter fname limit e =
     (let (t, e1) = time_Now e;
          w = \<lparr>rec = [], rec_closed = False, filename = fname, filedate = UTC t, file = None,
               format = ''[%D %T] [%L] (%S) %M'', header = [], trailer = [], rotate_limit = limit\<rparr>
      in case intRotate w e1 of
           (Some err, w', e') \<Rightarrow> Inl (Panic_error err, e')
         | (None, w', e') \<Rightarrow> Inr (w', e'))"

subsection \<open>The goroutine\<close>

text \<open>
  What the \<open>select\<close> of one iteration receives: a rotation signal, a record, or the
  news that the record channel is closed and empty.
\<close>

datatype msg = RotSignal | Record LogRecord | RecClosed

datatype flow = Next | Return

datatype status = Waiting | Exited

text \<open>The deferred function, run when the goroutine returns.\<close>

definition deferred :: "DailyFileLogWriter \<Rightarrow> world \<Rightarrow> world" where
  "deferred w e =
     (if file w \<noteq> None
      then (let (t, ea) = time_Now e;
                (_, eb) = fmt_Fprint (file w) (FormatLogRecord e (trailer w) (LogRecord_Created t)) ea;
                (_, ec) = File_Close (file w) eb
            in ec)
      else e)"

text \<open>One iteration of the \<open>for\<close> loop: the body of the \<open>select\<close>.\<close>

definition body :: "msg \<Rightarrow> DailyFileLogWriter \<Rightarrow> world \<Rightarrow> flow \<times> DailyFileLogWriter \<times> world" where
  "body m w e =
     (case m of
        RotSignal \<Rightarrow>
          (case intRotate w e of
             (Some err, w', e') \<Rightarrow> (Return, w', report (filename w') err e')
           | (None, w', e') \<Rightarrow> (Next, w', e'))
      | RecClosed \<Rightarrow> (Return, w, e)
      | Record r \<Rightarrow>
          (let (t, e1) = time_Now e;
               (failed, w2, e2) =
                 (if Day (UTC t) \<noteq> Day (filedate w) then intRotate w e1 else (None, w, e1))
           in case failed of
                Some err \<Rightarrow> (Return, w2, report (filename w2) err e2)
              | None \<Rightarrow>
                 (case fmt_Fprint (file w2) (FormatLogRecord e (format w2) r) e2 of
                    (Some err, e3) \<Rightarrow> (Return, w2, report (filename w2) err e3)
                  | (None, e3) \<Rightarrow> (Next, w2, e3))))"

text \<open>
  The loop over the messages the goroutine receives. When they are used up it waits in
  the \<open>select\<close>; when an iteration returns, the deferred function runs and it has exited.
\<close>

fun loop :: "DailyFileLogWriter \<Rightarrow> world \<Rightarrow> msg list \<Rightarrow> status \<times> DailyFileLogWriter \<times> world" where
  "loop w e [] = (Waiting, w, e)"
| "loop w e (m # ms) =
     (case body m w e of
        (Return, w', e') \<Rightarrow> (Exited, w', deferred w' e')
      | (Next, w', e') \<Rightarrow> loop w' e' ms)"

text \<open>
  What the goroutine receives from the record channel when no rotation is requested:
  the buffered records in the order of their sends, then, if the channel has been
  closed, the news of it.
\<close>

definition deliveries :: "DailyFileLogWriter \<Rightarrow> msg list" where
  "deliveries w = map Record (rec w) @ (if rec_closed w then [RecClosed] else [])"

definition serve :: "DailyFileLogWriter \<Rightarrow> world \<Rightarrow> status \<times> DailyFileLogWriter \<times> world" where
  "serve w e = loop (w\<lparr>rec := []\<rparr>) e (deliveries w)"

subsection \<open>The setters\<close>

definition SetFormat :: "string \<Rightarrow> DailyFileLogWriter \<Rightarrow> DailyFileLogWriter" where
  "SetFormat fm w = w\<lparr>format := fm\<rparr>"

definition SetHeadFoot :: "string \<Rightarrow> string \<Rightarrow> DailyFileLogWriter \<Rightarrow> world \<Rightarrow> DailyFileLogWriter \<times> world" where
  "SetHeadFoot head foot w e =
     (let w' = w\<lparr>header := head, trailer := foot\<rparr>
      in if file w' \<noteq> None
         then (let (t, e1) = time_Now e;
                   (_, e2) = fmt_Fprint (file w') (FormatLogRecord e (header w') (LogRecord_Created t)) e1
               in (w', e2))
         else (w', e))"

definition SetRotateLimit :: "64 word \<Rightarrow> DailyFileLogWriter \<Rightarrow> DailyFileLogWriter" where
  "SetRotateLimit limit w = w\<lparr>rotate_limit := limit\<rparr>"

subsection \<open>Notions used to state the properties\<close>

text \<open>The format of the line written to standard error.\<close>

definition fmt_report :: string where
  "fmt_report = ''DailyFileLogWriter(%q): %s\<newline>''"

fun is_report :: "event \<Rightarrow> bool" where
  "is_report (Stderr f n err, x) = True"
| "is_report _ = False"

text \<open>The calls of the archiving step: the rename and the compressor.\<close>

fun is_archiving :: "event \<Rightarrow> bool" where
  "is_archiving (Rename a b, x) = True"
| "is_archiving (Run c args d, x) = True"
| "is_archiving _ = False"

fun opens_file :: "event \<Rightarrow> bool" where
  "opens_file (OpenFile p, x) = True"
| "opens_file _ = False"

text \<open>The calls whose failure makes a rotation fail.\<close>

fun is_rotation_failure :: "event \<Rightarrow> bool" where
  "is_rotation_failure (Rename a b, Some err) = True"
| "is_rotation_failure (Run c args d, Some err) = True"
| "is_rotation_failure (OpenFile p, Some err) = True"
| "is_rotation_failure _ = False"

definition archive_name :: "DailyFileLogWriter \<Rightarrow> string" where
  "archive_name w =
     Sprintf_archive (filename w) (Year (filedate w)) (Month (filedate w)) (Day (filedate w))"

text \<open>
  The date as the spec words it: a year of four digits, a month and a day of two
  digits each, zero-padded, separated by dashes.
\<close>

definition digit :: "nat \<Rightarrow> char" where
  "digit d = ''0123456789'' ! d"

definition iso_date :: "Time \<Rightarrow> string" where
  "iso_date t =
     (let y = nat (Year t); m = nat (Month t); d = nat (Day t)
      in [digit (y div 1000 mod 10), digit (y div 100 mod 10), digit (y div 10 mod 10), digit (y mod 10)]
         @ ''-'' @ [digit (m div 10 mod 10), digit (m mod 10)]
         @ ''-'' @ [digit (d div 10 mod 10), digit (d mod 10)])"

text \<open>
  \<open>extends e e'\<close>: the world \<open>e'\<close> is \<open>e\<close> after some more calls and clock readings.
  \<open>same_config w w'\<close>: the writers differ at most in the open file and its date.
\<close>

definition extends :: "world \<Rightarrow> world \<Rightarrow> bool" where
  "extends e e' \<longleftrightarrow>
     clock e' = clock e \<and> reply e' = reply e \<and> FormatLogRecord e' = FormatLogRecord e \<and>
     filepath_Dir e' = filepath_Dir e \<and> ticks e \<le> ticks e' \<and> log e' = log e @ emitted e e'"

definition same_config :: "DailyFileLogWriter \<Rightarrow> DailyFileLogWriter \<Rightarrow> bool" where
  "same_config w w' \<longleftrightarrow>
     rec w' = rec w \<and> rec_closed w' = rec_closed w \<and> filename w' = filename w \<and>
     format w' = format w \<and> header w' = header w \<and> trailer w' = trailer w \<and>
     rotate_limit w' = rotate_limit w"

text \<open>
  The calls of the deferred function, read off the world it leaves: the trailer
  rendered at the last clock reading, then the close.
\<close>

definition shutdown_calls :: "DailyFileLogWriter \<Rightarrow> world \<Rightarrow> syscall list" where
  "shutdown_calls w e =
     (case file w of None \<Rightarrow> []
      | Some h \<Rightarrow> [FileWrite h (FormatLogRecord e (trailer w) (LogRecord_Created (clock e (ticks e - 1)))),
                   FileClose h])"

text \<open>
  \<open>caused_by pre err w\<close>: the error \<open>err\<close> is the one of the failed call that ends
  \<open>pre\<close>, as it is or wrapped by the rotation, or it is the error of a write to a
  writer without a file.
\<close>

definition caused_by :: "event list \<Rightarrow> error \<Rightarrow> DailyFileLogWriter \<Rightarrow> bool" where
  "caused_by pre err w \<longleftrightarrow>
     (pre \<noteq> [] \<and>
        (case snd (last pre) of
           Some err0 \<Rightarrow> err = err0 \<or> err = Errorf ''Rotate: %s\<newline>'' err0
         | None \<Rightarrow> False))
     \<or> (file w = None \<and> err = ErrInvalid)"

text \<open>The records a run receives before the channel is reported closed.\<close>

fun records_of :: "msg list \<Rightarrow> LogRecord list" where
  "records_of [] = []"
| "records_of (Record r # ms) = r # records_of ms"
| "records_of (RotSignal # ms) = records_of ms"
| "records_of (RecClosed # ms) = []"

text \<open>The error a rotation returns when the call \<open>c\<close> fails with \<open>err\<close>.\<close>

fun rotation_error :: "syscall \<Rightarrow> error \<Rightarrow> error" where
  "rotation_error (Rename a b) err = Errorf ''Rotate: %s\<newline>'' err"
| "rotation_error c err = err"

text \<open>The world in which a constructor call ends, whether it panics or returns.\<close>

definition world_of :: "(panic \<times> world) + (DailyFileLogWriter \<times> world) \<Rightarrow> world" where
  "world_of res = (case res of Inl (p, e) \<Rightarrow> e | Inr (w, e) \<Rightarrow> e)"

subsection \<open>Concrete data\<close>

definition jan15 :: Time where
  "jan15 = \<lparr>Year = 2024, Month = 1, Day = 15, Clock = 0\<rparr>"

definition jan16 :: Time where
  "jan16 = \<lparr>Year = 2024, Month = 1, Day = 16, Clock = 0\<rparr>"

definition feb15 :: Time where
  "feb15 = \<lparr>Year = 2024, Month = 2, Day = 15, Clock = 0\<rparr>"

text \<open>
  A world with a given clock and given replies, in which nothing has happened yet.
  Its formatter renders the template, the day of the timestamp and the message.
\<close>

definition fresh_world :: "(nat \<Rightarrow> Time) \<Rightarrow> (nat \<Rightarrow> error option) \<Rightarrow> world" where
  "fresh_world c r =
     \<lparr>clock = c, ticks = 0, reply = r, log = [],
      FormatLogRecord = (\<lambda>tmpl r. tmpl @ '':'' @ pad0 2 (Day (Created r)) @ '':'' @ Message r),
      filepath_Dir = (\<lambda>p. ''.'')\<rparr>"

text \<open>A writer whose file was opened on 15 January 2024, with two records pending.\<close>

definition record_one :: LogRecord where
  "record_one = \<lparr>Level = 1, Created = jan15, Source = ''main'', Message = ''one''\<rparr>"

definition record_two :: LogRecord where
  "record_two = \<lparr>Level = 1, Created = jan15, Source = ''main'', Message = ''two''\<rparr>"

definition jan_writer :: DailyFileLogWriter where
  "jan_writer =
     \<lparr>rec = [record_one, record_two], rec_closed = False, filename = ''app.log'',
      filedate = jan15, file = Some 7, format = ''%M'', header = ''H'', trailer = ''T'',
      rotate_limit = 3\<rparr>"

definition no_space :: error where
  "no_space = SysError ''no space left on device''"

definition denied :: error where
  "denied = SysError ''permission denied''"

section \<open>Properties\<close>

subsection \<open>Worlds and their logs\<close>

declare digits.simps [simp del]

lemmas os_defs = time_Now_def call_def os_Lstat_def os_Rename_def cmd_Run_def os_OpenFile_def
  fmt_Fprint_def File_Close_def File_Sync_def report_def UTC_def

lemmas data_defs = jan15_def jan16_def feb15_def fresh_world_def record_one_def record_two_def
  jan_writer_def no_space_def denied_def LogRecord_Created_def

lemma emitted_append: "log e' = log e @ evs \<Longrightarrow> emitted e e' = evs"
  by (simp add: emitted_def)

lemma extends_refl: "extends e e"
  by (simp add: extends_def emitted_def)

lemma extends_trans:
  assumes "extends e e1" and "extends e1 e2"
  shows "extends e e2"
proof -
  obtain a where a: "log e1 = log e @ a" using assms(1) by (auto simp: extends_def)
  obtain b where b: "log e2 = log e1 @ b" using assms(2) by (auto simp: extends_def)
  have "log e2 = log e @ (a @ b)" using a b by simp
  then have "log e2 = log e @ emitted e e2" by (simp add: emitted_append)
  then show ?thesis using assms by (simp add: extends_def)
qed

lemma emitted_trans:
  assumes "extends e e1" and "extends e1 e2"
  shows "emitted e e2 = emitted e e1 @ emitted e1 e2"
proof -
  obtain a where a: "log e1 = log e @ a" using assms(1) by (auto simp: extends_def)
  obtain b where b: "log e2 = log e1 @ b" using assms(2) by (auto simp: extends_def)
  have "log e2 = log e @ (a @ b)" using a b by simp
  then show ?thesis using a b by (simp add: emitted_append)
qed

lemma same_config_refl: "same_config w w"
  by (simp add: same_config_def)

lemma same_config_trans: "same_config w w1 \<Longrightarrow> same_config w1 w2 \<Longrightarrow> same_config w w2"
  by (simp add: same_config_def)

subsection \<open>Rotation\<close>

text \<open>
  C5. When the rename of the current file to its archive name fails, or the
  compressor run on the renamed file fails, the rotation returns the failure (the
  rename's wrapped in the message of the rotation, the compressor's as it is), makes
  no call to open a file, and leaves every field of the writer, the date of the open
  file among them, as it was.
\<close>

theorem archive_failure_aborts_rotation:
  assumes "intRotate w e = (r, w', e')"
    and "(Rename a b, Some err) \<in> set (emitted e e') \<or> (Run c args d, Some err) \<in> set (emitted e e')"
  shows "r = Some (if (Rename a b, Some err) \<in> set (emitted e e')
                   then Errorf ''Rotate: %s\<newline>'' err else err)
       \<and> filter opens_file (emitted e e') = []
       \<and> w' = w"
  using assms unfolding intRotate_def os_defs Let_def emitted_def
  by (auto split: option.splits prod.splits if_splits sum.splits)

theorem archive_failure_aborts_rotation_witness:
  "intRotate jan_writer (fresh_world (\<lambda>k. jan16) (\<lambda>k. if k = 3 then Some denied else None)) =
     (Some (Errorf ''Rotate: %s\<newline>'' denied), jan_writer,
      (fresh_world (\<lambda>k. jan16) (\<lambda>k. if k = 3 then Some denied else None))
        \<lparr>ticks := 1,
         log := [(FileWrite 7 ''T:16:'', None), (FileClose 7, None), (Lstat ''app.log'', None),
                 (Rename ''app.log'' ''app.log.2024-01-15'', Some denied)]\<rparr>)"
proof -
  define e where "e = fresh_world (\<lambda>k. jan16) (\<lambda>k. if k = 3 then Some denied else None)"
  obtain r w' e' where i: "intRotate jan_writer e = (r, w', e')" by (metis prod_cases3)
  have l: "log e' = [(FileWrite 7 ''T:16:'', None), (FileClose 7, None), (Lstat ''app.log'', None),
                 (Rename ''app.log'' ''app.log.2024-01-15'', Some denied)]"
     and t: "e' = e\<lparr>ticks := 1, log := log e'\<rparr>"
    using i unfolding e_def intRotate_def os_defs Let_def data_defs Sprintf_archive_def pad0_def
    by (auto simp: digits.simps)
  have "(Rename ''app.log'' ''app.log.2024-01-15'', Some denied) \<in> set (emitted e e')"
    using l by (simp add: emitted_def e_def fresh_world_def)
  from archive_failure_aborts_rotation[OF i disjI1[OF this]] this
  have "r = Some (Errorf ''Rotate: %s\<newline>'' denied)" "w' = jan_writer" by simp_all
  then show ?thesis using i l t unfolding e_def by simp
qed

text \<open>
  C4. A rotation archives, that is renames the file and runs the compressor, exactly
  when the retention limit is not zero and the \<open>Lstat\<close> of the file name finds a file.
  A rotation that succeeds then makes exactly one rename, to the archive name, and one
  compressor run on it; with a limit of zero, or with no file found, it makes neither,
  and the call after the \<open>Lstat\<close> is the open of the file name.
\<close>

theorem archive_iff_retention_and_exists:
  assumes "intRotate w e = (r, w', e')"
  shows "((\<exists>ev \<in> set (emitted e e'). is_archiving ev) \<longleftrightarrow>
            rotate_limit w \<noteq> 0 \<and> (Lstat (filename w), None) \<in> set (emitted e e'))
       \<and> (r = None \<longrightarrow>
            filter is_archiving (emitted e e') =
              (if rotate_limit w \<noteq> 0 \<and> (Lstat (filename w), None) \<in> set (emitted e e')
               then [(Rename (filename w) (archive_name w), None),
                     (Run ''gzip'' [''--fast'', ''--force'', archive_name w]
                        (filepath_Dir e (archive_name w)), None)]
               else []))
       \<and> (\<not> (rotate_limit w \<noteq> 0 \<and> (Lstat (filename w), None) \<in> set (emitted e e')) \<longrightarrow>
            map fst (take 2 (dropWhile (\<lambda>ev. fst ev \<noteq> Lstat (filename w)) (emitted e e'))) =
              [Lstat (filename w), OpenFile (filename w)])"
  using assms unfolding intRotate_def os_defs Let_def archive_name_def emitted_def
  by (auto split: option.splits prod.splits if_splits sum.splits simp: word_gt_0)

lemma fresh_world_fields:
  "log (fresh_world c r) = []" "ticks (fresh_world c r) = 0"
  "clock (fresh_world c r) = c" "reply (fresh_world c r) = r"
  by (simp_all add: fresh_world_def)

lemma jan_rotation:
  "intRotate jan_writer (fresh_world (\<lambda>k. jan16) (\<lambda>k. None)) =
     (None, jan_writer\<lparr>filedate := jan16, file := Some 5\<rparr>,
      (fresh_world (\<lambda>k. jan16) (\<lambda>k. None))
        \<lparr>ticks := 2,
         log := [(FileWrite 7 ''T:16:'', None), (FileClose 7, None), (Lstat ''app.log'', None),
                 (Rename ''app.log'' ''app.log.2024-01-15'', None),
                 (Run ''gzip'' [''--fast'', ''--force'', ''app.log.2024-01-15''] ''.'', None),
                 (OpenFile ''app.log'', None), (FileWrite 5 ''H:16:'', None)]\<rparr>)"
  unfolding intRotate_def os_defs Let_def data_defs Sprintf_archive_def pad0_def
  by (simp add: digits.simps)

theorem archive_iff_retention_and_exists_witness:
  "filter is_archiving
     (emitted (fresh_world (\<lambda>k. jan16) (\<lambda>k. None))
        (snd (snd (intRotate jan_writer (fresh_world (\<lambda>k. jan16) (\<lambda>k. None)))))) =
     [(Rename ''app.log'' ''app.log.2024-01-15'', None),
      (Run ''gzip'' [''--fast'', ''--force'', ''app.log.2024-01-15''] ''.'', None)]"
  using archive_iff_retention_and_exists[OF jan_rotation]
  by (simp add: jan_rotation emitted_def fresh_world_fields)

text \<open>
  C8. In a rotation that succeeds while a file is open, the first two calls are the
  write of the trailer template, rendered with a record whose timestamp is the clock
  reading taken as the rotation starts, to the old handle, and the close of that
  handle; the last two calls are the open of the file name and the write to the new
  handle of the header template, rendered with a record whose timestamp is the new
  date of the open file, the clock reading taken after the open. No write lies between.
\<close>

theorem rotation_trailer_then_header:
  assumes "intRotate w e = (None, w', e')" and "file w = Some h"
  shows "\<exists>x y mid h' z.
     emitted e e' =
       [(FileWrite h (FormatLogRecord e (trailer w) (LogRecord_Created (clock e (ticks e)))), x),
        (FileClose h, y)] @ mid @
       [(OpenFile (filename w), None),
        (FileWrite h' (FormatLogRecord e (header w) (LogRecord_Created (filedate w'))), z)]
     \<and> file w' = Some h' \<and> filedate w' = UTC (clock e (Suc (ticks e)))
     \<and> (\<forall>ev \<in> set mid. \<forall>g s. fst ev \<noteq> FileWrite g s)"
  using assms unfolding intRotate_def os_defs Let_def emitted_def
  by (auto split: option.splits prod.splits if_splits sum.splits)

theorem rotation_trailer_then_header_witness:
  "filedate (fst (snd (intRotate jan_writer (fresh_world (\<lambda>k. jan16) (\<lambda>k. None))))) = jan16
   \<and> take 2 (log (snd (snd (intRotate jan_writer (fresh_world (\<lambda>k. jan16) (\<lambda>k. None)))))) =
       [(FileWrite 7 ''T:16:'', None), (FileClose 7, None)]
   \<and> drop 5 (log (snd (snd (intRotate jan_writer (fresh_world (\<lambda>k. jan16) (\<lambda>k. None)))))) =
       [(OpenFile ''app.log'', None), (FileWrite 5 ''H:16:'', None)]"
proof -
  have "file jan_writer = Some 7" by (simp add: jan_writer_def)
  from rotation_trailer_then_header[OF jan_rotation this]
  have "filedate (jan_writer\<lparr>filedate := jan16, file := Some 5\<rparr>) =
          UTC (clock (fresh_world (\<lambda>k. jan16) (\<lambda>k. None)) (Suc (ticks (fresh_world (\<lambda>k. jan16) (\<lambda>k. None)))))"
    by blast
  then show ?thesis by (simp add: jan_rotation)
qed

subsection \<open>The archive name\<close>

lemma digit_0: "digit 0 = CHR ''0''"
  by (simp add: digit_def)

lemma digits1: "n < 10 \<Longrightarrow> digits n = [digit n]"
  by (subst digits.simps) (simp add: digit_def)

lemma digits_step: "10 \<le> n \<Longrightarrow> digits n = digits (n div 10) @ [digit (n mod 10)]"
  by (subst digits.simps) (simp add: digit_def)

lemma digits2: "10 \<le> n \<Longrightarrow> n < 100 \<Longrightarrow> digits n = [digit (n div 10), digit (n mod 10)]"
proof -
  assume a: "10 \<le> n" "n < 100"
  then have "n div 10 < 10" by arith
  then show ?thesis using a by (simp only: digits_step digits1 append.simps)
qed

lemma digits3: "100 \<le> n \<Longrightarrow> n < 1000 \<Longrightarrow>
   digits n = [digit (n div 100), digit (n div 10 mod 10), digit (n mod 10)]"
proof -
  assume a: "100 \<le> n" "n < 1000"
  then have b: "10 \<le> n div 10" "n div 10 < 100" "10 \<le> n" by arith+
  have c: "n div 10 div 10 = n div 100" by (simp add: div_mult2_eq[symmetric])
  show ?thesis using digits_step[OF b(3)] digits2[OF b(1,2)] c by simp
qed

lemma digits4: "1000 \<le> n \<Longrightarrow> n < 10000 \<Longrightarrow>
   digits n = [digit (n div 1000), digit (n div 100 mod 10), digit (n div 10 mod 10), digit (n mod 10)]"
proof -
  assume a: "1000 \<le> n" "n < 10000"
  then have b: "100 \<le> n div 10" "n div 10 < 1000" "10 \<le> n" by arith+
  have c: "n div 10 div 100 = n div 1000" "n div 10 div 10 = n div 100"
    by (simp_all add: div_mult2_eq[symmetric])
  show ?thesis using digits_step[OF b(3)] digits3[OF b(1,2)] c by simp
qed

lemma replicate2: "replicate 2 x = [x, x]"
  by (simp add: numeral_2_eq_2)

lemma replicate3: "replicate 3 x = [x, x, x]"
  by (simp add: numeral_3_eq_3)

lemma pad0_2:
  assumes "0 \<le> i" and "i < 100"
  shows "pad0 2 i = [digit (nat i div 10 mod 10), digit (nat i mod 10)]"
proof -
  consider "nat i < 10" | "10 \<le> nat i" "nat i < 100"
    using assms by linarith
  then show ?thesis
  proof cases
    case 1 then show ?thesis using assms by (simp add: pad0_def digits1 digit_0)
  next
    case 2 then show ?thesis using assms by (simp add: pad0_def digits2)
  qed
qed

lemma pad0_4:
  assumes "0 \<le> i" and "i < 10000"
  shows "pad0 4 i = [digit (nat i div 1000 mod 10), digit (nat i div 100 mod 10),
                     digit (nat i div 10 mod 10), digit (nat i mod 10)]"
proof -
  consider "nat i < 10" | "10 \<le> nat i" "nat i < 100" | "100 \<le> nat i" "nat i < 1000"
    | "1000 \<le> nat i" "nat i < 10000"
    using assms by linarith
  then show ?thesis
  proof cases
    case 1 then show ?thesis using assms by (simp add: pad0_def digits1 digit_0 replicate3)
  next
    case 2 then show ?thesis using assms by (simp add: pad0_def digits2 digit_0 replicate2)
  next
    case 3 then show ?thesis using assms by (simp add: pad0_def digits3 digit_0)
  next
    case 4 then show ?thesis using assms by (simp add: pad0_def digits4)
  qed
qed

lemma Sprintf_archive_iso:
  assumes "0 \<le> Year t" "Year t \<le> 9999" "0 \<le> Month t" "Month t \<le> 99" "0 \<le> Day t" "Day t \<le> 99"
  shows "Sprintf_archive name (Year t) (Month t) (Day t) = name @ ''.'' @ iso_date t"
  using assms by (simp add: Sprintf_archive_def iso_date_def pad0_2 pad0_4 Let_def)

lemma rename_target:
  assumes "intRotate w e = (r, w', e')" and "(Rename a b, x) \<in> set (emitted e e')"
  shows "a = filename w \<and> b = archive_name w"
  using assms unfolding intRotate_def os_defs Let_def archive_name_def emitted_def
  by (auto split: option.splits prod.splits if_splits sum.splits)

text \<open>
  C6. Whenever a rotation renames the file, it renames the current file name to that
  name followed by a dot and the date the file was opened on, the date held by the
  writer as the rotation starts: the year in four digits, a dash, the month in two
  digits, a dash, the day in two digits, zero-padded (for the years 0 to 9999).
\<close>

theorem archive_name_uses_opened_date:
  assumes "intRotate w e = (r, w', e')"
    and "(Rename a b, x) \<in> set (emitted e e')"
    and "0 \<le> Year (filedate w)" and "Year (filedate w) \<le> 9999"
    and "1 \<le> Month (filedate w)" and "Month (filedate w) \<le> 12"
    and "1 \<le> Day (filedate w)" and "Day (filedate w) \<le> 31"
  shows "a = filename w \<and> b = filename w @ ''.'' @ iso_date (filedate w)"
proof -
  have "Sprintf_archive (filename w) (Year (filedate w)) (Month (filedate w)) (Day (filedate w)) =
          filename w @ ''.'' @ iso_date (filedate w)"
    using assms(3-8) by (intro Sprintf_archive_iso) auto
  then show ?thesis using rename_target[OF assms(1,2)] by (simp add: archive_name_def)
qed

theorem archive_name_uses_opened_date_witness:
  "''app.log.2024-01-15'' = filename jan_writer @ ''.'' @ iso_date jan15
   \<and> filedate (fst (snd (intRotate jan_writer (fresh_world (\<lambda>k. jan16) (\<lambda>k. None))))) = jan16"
proof -
  let ?e = "fresh_world (\<lambda>k. jan16) (\<lambda>k. None)"
  have i: "intRotate jan_writer ?e =
             (fst (intRotate jan_writer ?e), fst (snd (intRotate jan_writer ?e)),
              snd (snd (intRotate jan_writer ?e)))"
    by simp
  have m: "(Rename ''app.log'' ''app.log.2024-01-15'', None) \<in>
             set (emitted ?e (snd (snd (intRotate jan_writer ?e))))"
    by (simp add: jan_rotation emitted_def fresh_world_fields)
  have d: "filedate jan_writer = jan15" by (simp add: jan_writer_def)
  have "''app.log.2024-01-15'' = filename jan_writer @ ''.'' @ iso_date (filedate jan_writer)"
    using archive_name_uses_opened_date[OF i m] by (simp add: d jan15_def)
  then show ?thesis by (simp add: jan_rotation d)
qed

subsection \<open>Construction and the setters\<close>

text \<open>
  C9. When a call of the first rotation fails during construction, the open of the
  file in particular, the constructor panics with the error of the rotation and
  returns no writer, so there is none for a producer to enqueue records on.
\<close>

theorem constructor_panics_on_failed_rotation:
  assumes "(c, Some err) \<in> set (emitted e (world_of (NewDailyFileLogWriter fname limit e)))"
    and "is_rotation_failure (c, Some err)"
  shows "\<exists>e'. NewDailyFileLogWriter fname limit e = Inl (Panic_error (rotation_error c err), e')"
  using assms unfolding NewDailyFileLogWriter_def intRotate_def os_defs Let_def emitted_def world_of_def
  by (auto split: option.splits prod.splits if_splits sum.splits)

lemma failed_construction:
  "NewDailyFileLogWriter ''app.log'' 3 (fresh_world (\<lambda>k. jan15) (\<lambda>k. if k = 0 then Some ErrNotExist else Some denied)) =
     Inl (Panic_error denied,
          (fresh_world (\<lambda>k. jan15) (\<lambda>k. if k = 0 then Some ErrNotExist else Some denied))
            \<lparr>ticks := 1, log := [(Lstat ''app.log'', Some ErrNotExist), (OpenFile ''app.log'', Some denied)]\<rparr>)"
  unfolding NewDailyFileLogWriter_def intRotate_def os_defs Let_def data_defs Sprintf_archive_def pad0_def
  by (simp add: digits.simps)

theorem constructor_panics_on_failed_rotation_witness:
  "\<exists>e'. NewDailyFileLogWriter ''app.log'' 3
           (fresh_world (\<lambda>k. jan15) (\<lambda>k. if k = 0 then Some ErrNotExist else Some denied)) =
         Inl (Panic_error denied, e')"
proof -
  let ?e = "fresh_world (\<lambda>k. jan15) (\<lambda>k. if k = 0 then Some ErrNotExist else Some denied)"
  have m: "(OpenFile ''app.log'', Some denied) \<in>
             set (emitted ?e (world_of (NewDailyFileLogWriter ''app.log'' 3 ?e)))"
    by (simp add: failed_construction world_of_def emitted_def fresh_world_fields)
  have f: "is_rotation_failure (OpenFile ''app.log'', Some denied)" by simp
  from constructor_panics_on_failed_rotation[OF m f] show ?thesis by simp
qed

lemma constructed_writer:
  assumes "NewDailyFileLogWriter fname limit e = Inr (w, e')"
  shows "file w \<noteq> None \<and> \<not> rec_closed w \<and> rec w = [] \<and> filename w = fname \<and> rotate_limit w = limit"
  using assms unfolding NewDailyFileLogWriter_def intRotate_def os_defs Let_def
  by (auto split: option.splits prod.splits if_splits sum.splits)

text \<open>
  C10. Called on a writer with a file, \<open>SetHeadFoot\<close> sets the header and the trailer
  template and changes no other field of the writer; it reads the clock once and
  makes one call, the write to that file of the new header template rendered with
  a log record whose timestamp is the reading. A writer returned by the constructor
  has a file.
\<close>

theorem SetHeadFoot_writes_header:
  "(file w = Some h \<longrightarrow>
      SetHeadFoot head foot w e =
        (w\<lparr>header := head, trailer := foot\<rparr>,
         e\<lparr>ticks := Suc (ticks e),
           log := log e @ [(FileWrite h (FormatLogRecord e head (LogRecord_Created (clock e (ticks e)))),
                            reply e (length (log e)))]\<rparr>))
   \<and> (NewDailyFileLogWriter fname limit e0 = Inr (w1, e1) \<longrightarrow> file w1 \<noteq> None)"
  using constructed_writer[of fname limit e0 w1 e1]
  by (auto simp: SetHeadFoot_def os_defs Let_def)

theorem SetHeadFoot_writes_header_witness:
  "SetHeadFoot ''<log>'' ''</log>'' jan_writer (fresh_world (\<lambda>k. jan16) (\<lambda>k. None)) =
     (jan_writer\<lparr>header := ''<log>'', trailer := ''</log>''\<rparr>,
      (fresh_world (\<lambda>k. jan16) (\<lambda>k. None))\<lparr>ticks := 1, log := [(FileWrite 7 ''<log>:16:'', None)]\<rparr>)"
proof -
  have "file jan_writer = Some 7" by (simp add: jan_writer_def)
  moreover have "FormatLogRecord (fresh_world (\<lambda>k. jan16) (\<lambda>k. None)) ''<log>'' (LogRecord_Created jan16) = ''<log>:16:''"
    by (simp add: data_defs pad0_def digits.simps)
  ultimately show ?thesis
    using SetHeadFoot_writes_header[of jan_writer 7 "''<log>''" "''</log>''" "fresh_world (\<lambda>k. jan16) (\<lambda>k. None)"]
    by (simp add: fresh_world_fields)
qed

subsection \<open>Close\<close>

text \<open>
  C3, as the code has it. Close may be called once: on a writer whose channel is
  open it returns, with the channel closed; called again on the writer it leaves, it
  panics, whatever the world, since it closes a channel that is closed.
\<close>

theorem close_once_only:
  assumes "\<not> rec_closed w"
  shows "\<exists>w1 e1. Close w e = Inr (w1, e1) \<and> (\<forall>e2. Close w1 e2 = Inl Panic_close_of_closed_channel)"
  using assms by (simp add: Close_def)

theorem close_once_only_witness:
  "\<exists>w1 e1. Close jan_writer (fresh_world (\<lambda>k. jan15) (\<lambda>k. None)) = Inr (w1, e1)
     \<and> (\<forall>e2. Close w1 e2 = Inl Panic_close_of_closed_channel)"
proof -
  have "\<not> rec_closed jan_writer" by (simp add: jan_writer_def)
  from close_once_only[OF this] show ?thesis .
qed

text \<open>The second of two calls of Close panics.\<close>

theorem close_twice_panics:
  "Close jan_writer (fresh_world (\<lambda>k. jan15) (\<lambda>k. None)) =
     Inr (jan_writer\<lparr>rec_closed := True\<rparr>,
          (fresh_world (\<lambda>k. jan15) (\<lambda>k. None))\<lparr>log := [(FileSync 7, None)]\<rparr>)
   \<and> Close (jan_writer\<lparr>rec_closed := True\<rparr>)
        ((fresh_world (\<lambda>k. jan15) (\<lambda>k. None))\<lparr>log := [(FileSync 7, None)]\<rparr>) =
     Inl Panic_close_of_closed_channel"
  by (simp add: Close_def os_defs Let_def jan_writer_def fresh_world_def)

subsection \<open>What one step leaves unchanged\<close>

lemma intRotate_frame:
  assumes "intRotate w e = (r, w', e')"
  shows "extends e e' \<and> same_config w w' \<and> (\<forall>ev \<in> set (emitted e e'). \<not> is_report ev)"
  using assms unfolding intRotate_def os_defs Let_def extends_def same_config_def emitted_def
  by (auto split: option.splits prod.splits if_splits sum.splits)

lemma intRotate_ok:
  assumes "intRotate w e = (None, w', e')"
  shows "\<forall>ev \<in> set (emitted e e'). \<not> is_rotation_failure ev"
  using assms unfolding intRotate_def os_defs Let_def emitted_def
  by (auto split: option.splits prod.splits if_splits sum.splits)

lemma intRotate_failed:
  assumes "intRotate w e = (Some err, w', e')"
  shows "caused_by (emitted e e') err w'"
  using assms unfolding intRotate_def os_defs Let_def emitted_def caused_by_def
  by (auto split: option.splits prod.splits if_splits sum.splits)

lemma deferred_frame:
  "extends e (deferred w e) \<and> map fst (emitted e (deferred w e)) = shutdown_calls w (deferred w e)
     \<and> (\<forall>ev \<in> set (emitted e (deferred w e)). \<not> is_report ev \<and> \<not> is_rotation_failure ev)"
  unfolding deferred_def os_defs Let_def extends_def emitted_def shutdown_calls_def
  by (auto split: option.splits prod.splits if_splits)

lemma time_Now_frame:
  "time_Now e = (t, e1) \<Longrightarrow>
     extends e e1 \<and> emitted e e1 = [] \<and> t = clock e (ticks e) \<and> ticks e1 = Suc (ticks e)"
  by (auto simp: time_Now_def extends_def emitted_def)

lemma fmt_Fprint_frame:
  "fmt_Fprint f s e = (x, e1) \<Longrightarrow>
     extends e e1 \<and> ticks e1 = ticks e
     \<and> emitted e e1 = (case f of None \<Rightarrow> [] | Some h \<Rightarrow> [(FileWrite h s, x)])
     \<and> (f = None \<longrightarrow> x = Some ErrInvalid)"
  by (auto simp: fmt_Fprint_def call_def Let_def extends_def emitted_def split: option.splits)

lemma report_frame:
  "extends e (report name err e) \<and> ticks (report name err e) = ticks e
     \<and> emitted e (report name err e) = [(Stderr fmt_report name err, reply e (length (log e)))]"
  by (simp add: report_def call_def Let_def extends_def emitted_def fmt_report_def)

lemma caused_by_append: "caused_by pre err w \<Longrightarrow> caused_by (xs @ pre) err w"
  by (cases "pre = []") (auto simp: caused_by_def)

lemma rotate_if_due:
  assumes "(if c then intRotate w e1 else (None, w, e1)) = (failed, w2, e2)"
  shows "extends e1 e2 \<and> same_config w w2
       \<and> (\<forall>ev \<in> set (emitted e1 e2). \<not> is_report ev)
       \<and> (failed = None \<longrightarrow> (\<forall>ev \<in> set (emitted e1 e2). \<not> is_rotation_failure ev))
       \<and> (\<forall>err. failed = Some err \<longrightarrow> caused_by (emitted e1 e2) err w2)"
proof (cases c)
  case True
  then show ?thesis
    using assms intRotate_frame[of w e1 failed w2 e2] intRotate_ok[of w e1 w2 e2]
      intRotate_failed[of w e1 _ w2 e2]
    by auto
next
  case False
  then show ?thesis using assms by (auto simp: extends_refl same_config_refl emitted_def)
qed

subsection \<open>One iteration of the loop\<close>

lemma body_Next:
  assumes "body m w e = (Next, w1, e1)"
  shows "extends e e1 \<and> same_config w w1
       \<and> (\<forall>ev \<in> set (emitted e e1). \<not> is_report ev \<and> \<not> is_rotation_failure ev)
       \<and> (\<forall>r. m = Record r \<longrightarrow>
             (\<exists>h. (FileWrite h (FormatLogRecord e (format w) r), None) \<in> set (emitted e e1)))
       \<and> m \<noteq> RecClosed"
proof (cases m)
  case RotSignal
  then show ?thesis using assms intRotate_frame[of w e] intRotate_ok[of w e]
    by (auto simp: body_def split: option.splits prod.splits)
next
  case (Record r)
  obtain t ea where t: "time_Now e = (t, ea)" by (cases "time_Now e")
  obtain failed w2 e2
    where s: "(if Day (UTC t) \<noteq> Day (filedate w) then intRotate w ea else (None, w, ea)) = (failed, w2, e2)"
    by (metis prod_cases3)
  obtain x e3 where p: "fmt_Fprint (file w2) (FormatLogRecord e (format w2) r) e2 = (x, e3)"
    by (cases "fmt_Fprint (file w2) (FormatLogRecord e (format w2) r) e2")
  have r: "failed = None" "x = None" "w1 = w2" "e1 = e3"
    using assms Record t s p by (auto simp: body_def split: option.splits)
  note A = time_Now_frame[OF t] and B = rotate_if_due[OF s] and C = fmt_Fprint_frame[OF p]
  have ext: "extends e e2" using A B extends_trans by blast
  have em: "emitted e e1 = emitted ea e2 @ emitted e2 e3"
    using A B C r emitted_trans[OF ext, of e3] emitted_trans[of e ea e2] by simp
  have fmt: "format w2 = format w" using B by (simp add: same_config_def)
  obtain h where h: "file w2 = Some h" using C r by (cases "file w2") auto
  show ?thesis using Record ext A B C r em fmt h extends_trans[OF ext, of e3]
    by auto
next
  case RecClosed
  then show ?thesis using assms by (simp add: body_def)
qed

lemma body_Return:
  assumes "body m w e = (Return, w1, e1)"
  shows "extends e e1 \<and> same_config w w1
       \<and> (m = RecClosed \<and> w1 = w \<and> e1 = e
            \<or> m \<noteq> RecClosed \<and>
              (\<exists>pre err x. emitted e e1 = pre @ [(Stderr fmt_report (filename w) err, x)]
                  \<and> caused_by pre err w1 \<and> (\<forall>ev \<in> set pre. \<not> is_report ev)))"
proof (cases m)
  case RotSignal
  obtain r w2 e2 where i0: "intRotate w e = (r, w2, e2)" by (metis prod_cases3)
  then obtain err where i: "intRotate w e = (Some err, w1, e2)"
      and e1: "e1 = report (filename w1) err e2"
    using assms RotSignal by (auto simp: body_def split: option.splits prod.splits)
  note A = intRotate_frame[OF i] and B = report_frame[where name="filename w1" and err=err and e=e2]
    and C = intRotate_failed[OF i]
  have fn: "filename w1 = filename w" using A by (simp add: same_config_def)
  have "emitted e e1 = emitted e e2 @ [(Stderr fmt_report (filename w) err, reply e2 (length (log e2)))]"
    using A B e1 fn emitted_trans[of e e2 e1] by simp
  then show ?thesis using RotSignal A B C e1 extends_trans[of e e2 e1] by blast
next
  case (Record r)
  obtain t ea where t: "time_Now e = (t, ea)" by (cases "time_Now e")
  obtain failed w2 e2
    where s: "(if Day (UTC t) \<noteq> Day (filedate w) then intRotate w ea else (None, w, ea)) = (failed, w2, e2)"
    by (metis prod_cases3)
  obtain x e3 where p: "fmt_Fprint (file w2) (FormatLogRecord e (format w2) r) e2 = (x, e3)"
    by (cases "fmt_Fprint (file w2) (FormatLogRecord e (format w2) r) e2")
  note A = time_Now_frame[OF t] and B = rotate_if_due[OF s] and C = fmt_Fprint_frame[OF p]
  have ext: "extends e e2" using A B extends_trans by blast
  have em2: "emitted e e2 = emitted ea e2" using A B emitted_trans[of e ea e2] by simp
  have w: "w1 = w2" using assms Record t s p by (auto simp: body_def split: option.splits)
  have fn: "filename w2 = filename w" using B by (simp add: same_config_def)
  show ?thesis
  proof (cases failed)
    case None
    then obtain err where x: "x = Some err" and e1: "e1 = report (filename w2) err e3"
      using assms Record t s p by (auto simp: body_def split: option.splits)
    note D = report_frame[where name="filename w2" and err=err and e=e3]
    have ext3: "extends e e3" using ext C extends_trans by blast
    have "emitted e e1 =
            (emitted ea e2 @ emitted e2 e3) @ [(Stderr fmt_report (filename w) err, reply e3 (length (log e3)))]"
      using emitted_trans[OF ext3, of e1] emitted_trans[OF ext, of e3] C D e1 em2 fn by simp
    moreover have "\<forall>ev \<in> set (emitted ea e2 @ emitted e2 e3). \<not> is_report ev"
      using B C by (auto split: option.splits)
    moreover have "caused_by (emitted ea e2 @ emitted e2 e3) err w2"
      using C x by (cases "file w2") (auto simp: caused_by_def)
    ultimately show ?thesis using Record B w D e1 extends_trans[OF ext3, of e1] by blast
  next
    case (Some err)
    then have e1: "e1 = report (filename w2) err e2"
      using assms Record t s p by (auto simp: body_def split: option.splits)
    note D = report_frame[where name="filename w2" and err=err and e=e2]
    have "emitted e e1 = emitted ea e2 @ [(Stderr fmt_report (filename w) err, reply e2 (length (log e2)))]"
      using emitted_trans[OF ext, of e1] D e1 em2 fn by simp
    moreover have "caused_by (emitted ea e2) err w2" using B Some by simp
    ultimately show ?thesis using Record B w D e1 extends_trans[OF ext, of e1] by blast
  qed
next
  case RecClosed
  then show ?thesis using assms by (simp add: body_def extends_refl same_config_refl)
qed

subsection \<open>The loop\<close>

lemma loop_frame: "loop w e ms = (st, w', e') \<Longrightarrow> extends e e' \<and> same_config w w'"
proof (induction ms arbitrary: w e)
  case Nil
  then show ?case by (simp add: extends_refl same_config_refl)
next
  case (Cons m ms)
  obtain fl w1 e1 where b: "body m w e = (fl, w1, e1)" by (metis prod_cases3)
  show ?case
  proof (cases fl)
    case Next
    then have "loop w1 e1 ms = (st, w', e')" using Cons.prems b by simp
    then show ?thesis using Cons.IH body_Next b Next extends_trans same_config_trans by blast
  next
    case Return
    then have "w' = w1" "e' = deferred w1 e1" using Cons.prems b by auto
    then show ?thesis using body_Return b Return deferred_frame extends_trans by blast
  qed
qed

lemma loop_report:
  assumes "loop w e ms = (st, w', e')"
  shows "(\<forall>ev \<in> set (emitted e e'). \<not> is_report ev)
       \<or> st = Exited \<and>
           (\<exists>pre err x post.
              emitted e e' = pre @ (Stderr fmt_report (filename w) err, x) # post
              \<and> caused_by pre err w' \<and> (\<forall>ev \<in> set pre. \<not> is_report ev)
              \<and> map fst post = shutdown_calls w' e')"
  using assms
proof (induction ms arbitrary: w e)
  case Nil
  then show ?case by (simp add: emitted_def)
next
  case (Cons m ms)
  obtain fl w1 e1 where b: "body m w e = (fl, w1, e1)" by (metis prod_cases3)
  show ?case
  proof (cases fl)
    case Next
    then have l: "loop w1 e1 ms = (st, w', e')" using Cons.prems b by simp
    note N = body_Next[OF b[unfolded Next]] and F = loop_frame[OF l]
    have em: "emitted e e' = emitted e e1 @ emitted e1 e'" using N F emitted_trans by blast
    have fn: "filename w1 = filename w" using N by (simp add: same_config_def)
    from Cons.IH[OF l] show ?thesis
    proof
      assume "\<forall>ev \<in> set (emitted e1 e'). \<not> is_report ev"
      then show ?thesis using em N by auto
    next
      assume "st = Exited \<and>
           (\<exists>pre err x post.
              emitted e1 e' = pre @ (Stderr fmt_report (filename w1) err, x) # post
              \<and> caused_by pre err w' \<and> (\<forall>ev \<in> set pre. \<not> is_report ev)
              \<and> map fst post = shutdown_calls w' e')"
      then obtain pre err x post where st: "st = Exited"
        and p: "emitted e1 e' = pre @ (Stderr fmt_report (filename w1) err, x) # post"
          "caused_by pre err w'" "\<forall>ev \<in> set pre. \<not> is_report ev"
          "map fst post = shutdown_calls w' e'"
        by blast
      have "emitted e e' = (emitted e e1 @ pre) @ (Stderr fmt_report (filename w) err, x) # post"
        using em p(1) fn by simp
      moreover have "caused_by (emitted e e1 @ pre) err w'" using p(2) by (rule caused_by_append)
      moreover have "\<forall>ev \<in> set (emitted e e1 @ pre). \<not> is_report ev" using N p(3) by auto
      ultimately show ?thesis using st p(4) by blast
    qed
  next
    case Return
    then have r: "st = Exited" "w' = w1" "e' = deferred w1 e1" using Cons.prems b by auto
    note R = body_Return[OF b[unfolded Return]] and D = deferred_frame[of e1 w1]
    have em: "emitted e e' = emitted e e1 @ emitted e1 e'" using R D r emitted_trans by blast
    show ?thesis
    proof (cases "m = RecClosed")
      case True
      then have "emitted e e1 = []" using R by (auto simp: emitted_def)
      then show ?thesis using em D r by simp
    next
      case False
      then obtain pre err x where p: "emitted e e1 = pre @ [(Stderr fmt_report (filename w) err, x)]"
         "caused_by pre err w1" "\<forall>ev \<in> set pre. \<not> is_report ev" using R by blast
      have "emitted e e' = pre @ (Stderr fmt_report (filename w) err, x) # emitted e1 e'"
        using em p by simp
      then show ?thesis using r D p by blast
    qed
  qed
qed

lemma loop_unreported:
  assumes "loop w e ms = (st, w', e')" and "\<forall>ev \<in> set (emitted e e'). \<not> is_report ev"
  shows "(\<forall>ev \<in> set (emitted e e'). \<not> is_rotation_failure ev)
       \<and> (\<forall>r \<in> set (records_of ms).
             \<exists>h. (FileWrite h (FormatLogRecord e (format w) r), None) \<in> set (emitted e e'))
       \<and> (st = Exited \<longrightarrow> RecClosed \<in> set ms)"
  using assms
proof (induction ms arbitrary: w e)
  case Nil
  then show ?case by (simp add: emitted_def)
next
  case (Cons m ms)
  obtain fl w1 e1 where b: "body m w e = (fl, w1, e1)" by (metis prod_cases3)
  show ?case
  proof (cases fl)
    case Next
    then have l: "loop w1 e1 ms = (st, w', e')" using Cons.prems b by simp
    note N = body_Next[OF b[unfolded Next]] and F = loop_frame[OF l]
    have em: "emitted e e' = emitted e e1 @ emitted e1 e'" using N F emitted_trans by blast
    then have "\<forall>ev \<in> set (emitted e1 e'). \<not> is_report ev" using Cons.prems by simp
    note IH = Cons.IH[OF l this]
    have eq: "format w1 = format w" "FormatLogRecord e1 = FormatLogRecord e"
      using N by (simp_all add: same_config_def extends_def)
    show ?thesis
    proof (cases m)
      case RotSignal
      then show ?thesis using IH N em eq by auto
    next
      case (Record r)
      then show ?thesis using IH N em eq by auto
    next
      case RecClosed
      then show ?thesis using N by simp
    qed
  next
    case Return
    then have r: "st = Exited" "w' = w1" "e' = deferred w1 e1" using Cons.prems b by auto
    note R = body_Return[OF b[unfolded Return]] and D = deferred_frame[of e1 w1]
    have em: "emitted e e' = emitted e e1 @ emitted e1 e'" using R D r emitted_trans by blast
    have "m = RecClosed" using R em Cons.prems(2) by auto
    then show ?thesis using R D r em by (auto simp: emitted_def)
  qed
qed

text \<open>
  C7, as the code has it. In every run of the loop, either nothing is reported, and
  then no call of a rotation has failed, every record received before the channel
  was closed has been written with success, and the loop has exited only if the
  channel was closed; or the loop has exited and its calls are: calls without a
  report, the last of them the failed call, then one report to standard error that
  carries the file name of the writer and the error of that call (as it is, or as
  the rotation wrapped it), then nothing but the calls of the deferred function, the
  write of the trailer and the close of the file. No record is written and no
  rotation is made after a report.
\<close>

theorem loop_fail_stop:
  assumes "loop w e ms = (st, w', e')"
  shows "(\<forall>ev \<in> set (emitted e e'). \<not> is_report ev \<and> \<not> is_rotation_failure ev)
         \<and> (\<forall>r \<in> set (records_of ms).
               \<exists>h. (FileWrite h (FormatLogRecord e (format w) r), None) \<in> set (emitted e e'))
         \<and> (st = Exited \<longrightarrow> RecClosed \<in> set ms)
       \<or> st = Exited \<and>
           (\<exists>pre err x post.
              emitted e e' = pre @ (Stderr fmt_report (filename w) err, x) # post
              \<and> caused_by pre err w' \<and> (\<forall>ev \<in> set pre. \<not> is_report ev)
              \<and> map fst post = shutdown_calls w' e')"
  using loop_report[OF assms] loop_unreported[OF assms] by blast

lemma failed_write_run:
  "loop jan_writer (fresh_world (\<lambda>k. jan15) (\<lambda>k. if k = 0 then Some no_space else None))
        [Record record_one, Record record_two] =
     (Exited, jan_writer,
      (fresh_world (\<lambda>k. jan15) (\<lambda>k. if k = 0 then Some no_space else None))
        \<lparr>ticks := 2,
         log := [(FileWrite 7 ''%M:15:one'', Some no_space),
                 (Stderr ''DailyFileLogWriter(%q): %s\<newline>'' ''app.log'' no_space, None),
                 (FileWrite 7 ''T:15:'', None),
                 (FileClose 7, None)]\<rparr>)"
  unfolding body_def deferred_def os_defs Let_def data_defs pad0_def loop.simps
  by (simp add: digits.simps)

theorem loop_fail_stop_witness:
  "fst (loop jan_writer (fresh_world (\<lambda>k. jan15) (\<lambda>k. if k = 0 then Some no_space else None))
          [Record record_one, Record record_two]) = Exited
   \<and> records_of [Record record_one, Record record_two] = [record_one, record_two]"
proof -
  let ?e = "fresh_world (\<lambda>k. jan15) (\<lambda>k. if k = 0 then Some no_space else None)"
  have "is_report (Stderr ''DailyFileLogWriter(%q): %s\<newline>'' ''app.log'' no_space, None)" by simp
  then have "\<not> (\<forall>ev \<in> set (emitted ?e (snd (snd (loop jan_writer ?e [Record record_one, Record record_two])))).
              \<not> is_report ev \<and> \<not> is_rotation_failure ev)"
    unfolding failed_write_run by (simp add: emitted_def fresh_world_fields)
  then show ?thesis
    using loop_fail_stop[OF failed_write_run] unfolding failed_write_run by auto
qed

text \<open>
  A write does follow a report: when the write of the first record fails, the loop
  reports the error and the deferred function then writes the trailer to the file
  and closes it. The second record is not written.
\<close>

theorem trailer_written_after_report:
  "log (snd (snd (loop jan_writer
                    (fresh_world (\<lambda>k. jan15) (\<lambda>k. if k = 0 then Some no_space else None))
                    [Record record_one, Record record_two]))) =
     [(FileWrite 7 ''%M:15:one'', Some no_space),
      (Stderr ''DailyFileLogWriter(%q): %s\<newline>'' ''app.log'' no_space, None),
      (FileWrite 7 ''T:15:'', None),
      (FileClose 7, None)]"
  unfolding failed_write_run by simp

subsection \<open>Draining the channel after Close\<close>

lemma body_Record_plain:
  assumes "file w = Some h" and "reply e (length (log e)) = None"
    and "Day (clock e (ticks e)) = Day (filedate w)"
  shows "body (Record r) w e =
           (Next, w, e\<lparr>ticks := Suc (ticks e),
                         log := log e @ [(FileWrite h (FormatLogRecord e (format w) r), None)]\<rparr>)"
  using assms by (simp add: body_def os_defs Let_def)

lemma drain_trace:
  assumes "file w = Some h"
    and "\<forall>i < length rs. reply e (length (log e) + i) = None"
    and "\<forall>i < length rs. Day (clock e (ticks e + i)) = Day (filedate w)"
    and "loop w e (map Record rs @ [RecClosed]) = (st, w', e')"
  shows "st = Exited \<and> w' = w \<and>
         emitted e e' =
           map (\<lambda>r. (FileWrite h (FormatLogRecord e (format w) r), None)) rs @
           [(FileWrite h (FormatLogRecord e (trailer w) (LogRecord_Created (clock e (ticks e + length rs)))),
               reply e (length (log e) + length rs)),
            (FileClose h, reply e (length (log e) + length rs + 1))]"
  using assms
proof (induction rs arbitrary: e)
  case Nil
  then show ?case
    by (auto simp: body_def deferred_def os_defs Let_def emitted_def)
next
  case (Cons r rs)
  define e1 where "e1 = e\<lparr>ticks := Suc (ticks e),
                         log := log e @ [(FileWrite h (FormatLogRecord e (format w) r), None)]\<rparr>"
  have b: "body (Record r) w e = (Next, w, e1)"
    unfolding e1_def using Cons.prems(1,2,3) by (intro body_Record_plain) auto
  then have l: "loop w e1 (map Record rs @ [RecClosed]) = (st, w', e')"
    using Cons.prems(4) by simp
  have h1: "\<forall>i < length rs. reply e1 (length (log e1) + i) = None"
    using Cons.prems(2) by (auto simp: e1_def)
  have h2: "\<forall>i < length rs. Day (clock e1 (ticks e1 + i)) = Day (filedate w)"
    using Cons.prems(3) by (auto simp: e1_def)
  note IH = Cons.IH[OF Cons.prems(1) h1 h2 l]
  have "extends e e1" by (simp add: e1_def extends_def emitted_def)
  moreover have "extends e1 e'" using loop_frame[OF l] by simp
  ultimately have "emitted e e' = emitted e e1 @ emitted e1 e'" by (rule emitted_trans)
  moreover have "emitted e e1 = [(FileWrite h (FormatLogRecord e (format w) r), None)]"
    by (simp add: e1_def emitted_def)
  ultimately show ?case using IH by (simp add: e1_def)
qed

text \<open>
  C2, as the code has it. Take a writer with a file and any pending records, the
  empty sequence included, and suppose that the write of each pending record succeeds
  and that the day read before each of them is the day of the open file, so that no
  rotation falls due. Then Close makes one call, the sync of the file, at once and
  without waiting; and the goroutine, receiving what is in the channel, writes every
  pending record to the file in the order of the sends, then writes the trailer once
  and closes the file once, and exits.
\<close>

theorem close_drains_then_shuts_down:
  assumes "Close w e = Inr (w1, e1)"
    and "file w = Some h"
    and "\<forall>i < length (rec w). reply e (length (log e) + 1 + i) = None"
    and "\<forall>i < length (rec w). Day (clock e (ticks e + i)) = Day (filedate w)"
    and "serve w1 e1 = (st, w2, e2)"
  shows "emitted e e1 = [(FileSync h, reply e (length (log e)))]
       \<and> st = Exited
       \<and> emitted e1 e2 =
           map (\<lambda>r. (FileWrite h (FormatLogRecord e (format w) r), None)) (rec w) @
           [(FileWrite h (FormatLogRecord e (trailer w) (LogRecord_Created (clock e (ticks e + length (rec w))))),
               reply e (length (log e) + 1 + length (rec w))),
            (FileClose h, reply e (length (log e) + 1 + length (rec w) + 1))]"
proof -
  have c: "\<not> rec_closed w" "w1 = w\<lparr>rec_closed := True\<rparr>"
     "e1 = e\<lparr>log := log e @ [(FileSync h, reply e (length (log e)))]\<rparr>"
    using assms(1,2) by (auto simp: Close_def os_defs Let_def split: if_splits)
  define w0 where "w0 = w1\<lparr>rec := []\<rparr>"
  have l: "loop w0 e1 (map Record (rec w) @ [RecClosed]) = (st, w2, e2)"
    using assms(5) c by (simp add: serve_def deliveries_def w0_def)
  have "file w0 = Some h" using assms(2) c by (simp add: w0_def)
  moreover have "\<forall>i < length (rec w). reply e1 (length (log e1) + i) = None"
    using assms(3) c by (simp add: add.commute add.left_commute)
  moreover have "\<forall>i < length (rec w). Day (clock e1 (ticks e1 + i)) = Day (filedate w0)"
    using assms(4) c by (simp add: w0_def)
  ultimately have "st = Exited \<and> w2 = w0 \<and>
         emitted e1 e2 =
           map (\<lambda>r. (FileWrite h (FormatLogRecord e1 (format w0) r), None)) (rec w) @
           [(FileWrite h (FormatLogRecord e1 (trailer w0) (LogRecord_Created (clock e1 (ticks e1 + length (rec w))))),
               reply e1 (length (log e1) + length (rec w))),
            (FileClose h, reply e1 (length (log e1) + length (rec w) + 1))]"
    using l by (rule drain_trace)
  then show ?thesis using c by (simp add: w0_def emitted_def add.commute add.left_commute)
qed

lemma jan_close:
  "Close jan_writer (fresh_world (\<lambda>k. jan15) r) =
     Inr (jan_writer\<lparr>rec_closed := True\<rparr>, (fresh_world (\<lambda>k. jan15) r)\<lparr>log := [(FileSync 7, r 0)]\<rparr>)"
  by (simp add: Close_def os_defs Let_def jan_writer_def fresh_world_def)

theorem close_drains_then_shuts_down_witness:
  "emitted ((fresh_world (\<lambda>k. jan15) (\<lambda>k. None))\<lparr>log := [(FileSync 7, None)]\<rparr>)
     (snd (snd (serve (jan_writer\<lparr>rec_closed := True\<rparr>)
                  ((fresh_world (\<lambda>k. jan15) (\<lambda>k. None))\<lparr>log := [(FileSync 7, None)]\<rparr>)))) =
     [(FileWrite 7 ''%M:15:one'', None), (FileWrite 7 ''%M:15:two'', None),
      (FileWrite 7 ''T:15:'', None), (FileClose 7, None)]"
proof -
  let ?e = "fresh_world (\<lambda>k. jan15) (\<lambda>k. None)"
  let ?w1 = "jan_writer\<lparr>rec_closed := True\<rparr>"
  let ?e1 = "?e\<lparr>log := [(FileSync 7, None)]\<rparr>"
  have c: "Close jan_writer ?e = Inr (?w1, ?e1)" by (simp add: jan_close)
  have f: "file jan_writer = Some 7" by (simp add: jan_writer_def)
  have r: "\<forall>i < length (rec jan_writer). reply ?e (length (log ?e) + 1 + i) = None"
    by (simp add: fresh_world_fields)
  have d: "\<forall>i < length (rec jan_writer). Day (clock ?e (ticks ?e + i)) = Day (filedate jan_writer)"
    by (simp add: fresh_world_fields jan_writer_def jan15_def)
  have s: "serve ?w1 ?e1 = (fst (serve ?w1 ?e1), fst (snd (serve ?w1 ?e1)), snd (snd (serve ?w1 ?e1)))"
    by simp
  from close_drains_then_shuts_down[OF c f r d s]
  show ?thesis by (simp add: data_defs pad0_def digits.simps)
qed

text \<open>
  Pending records are not always written: when the write of the first of two pending
  records fails, the goroutine reports the error, writes the trailer, closes the file
  and exits. The second record is never written.
\<close>

theorem close_failed_write_drops_pending:
  "Close jan_writer (fresh_world (\<lambda>k. jan15) (\<lambda>k. if k = 0 then None else if k = 1 then Some no_space else None)) =
     Inr (jan_writer\<lparr>rec_closed := True\<rparr>,
          (fresh_world (\<lambda>k. jan15) (\<lambda>k. if k = 0 then None else if k = 1 then Some no_space else None))
            \<lparr>log := [(FileSync 7, None)]\<rparr>)
   \<and> log (snd (snd (serve (jan_writer\<lparr>rec_closed := True\<rparr>)
        ((fresh_world (\<lambda>k. jan15) (\<lambda>k. if k = 0 then None else if k = 1 then Some no_space else None))
            \<lparr>log := [(FileSync 7, None)]\<rparr>)))) =
       [(FileSync 7, None),
        (FileWrite 7 ''%M:15:one'', Some no_space),
        (Stderr ''DailyFileLogWriter(%q): %s\<newline>'' ''app.log'' no_space, None),
        (FileWrite 7 ''T:15:'', None),
        (FileClose 7, None)]"
  by (simp add: Close_def serve_def deliveries_def body_def deferred_def os_defs Let_def data_defs
        pad0_def digits.simps)

subsection \<open>The rotation decision\<close>

lemma intRotate_lstat:
  assumes "intRotate w e = (r, w', e')"
  shows "\<exists>x. (Lstat (filename w), x) \<in> set (emitted e e')"
  using assms unfolding intRotate_def os_defs Let_def emitted_def
  by (auto split: option.splits prod.splits if_splits sum.splits)

lemma body_Record_tail:
  assumes "body (Record r) w e = (fl, w1, e1)"
    and "time_Now e = (t, ea)"
    and "(if Day (UTC t) \<noteq> Day (filedate w) then intRotate w ea else (None, w, ea)) = (failed, w2, e2)"
  shows "extends e2 e1 \<and> (\<forall>ev \<in> set (emitted e2 e1). \<forall>p. fst ev \<noteq> Lstat p)"
  using assms
  by (auto simp: body_def fmt_Fprint_def report_def call_def Let_def extends_def emitted_def
      split: option.splits)

text \<open>
  What the code decides on: a dequeued record makes the writer rotate (every rotation
  looks the file name up) exactly when the day of the month of the clock reading
  differs from the day of the month of the date of the open file.
\<close>

lemma record_rotation_decision:
  assumes "body (Record r) w e = (fl, w1, e1)"
  shows "(\<exists>x. (Lstat (filename w), x) \<in> set (emitted e e1)) \<longleftrightarrow>
           Day (clock e (ticks e)) \<noteq> Day (filedate w)"
proof -
  obtain t ea where t: "time_Now e = (t, ea)" by (cases "time_Now e")
  obtain failed w2 e2
    where s: "(if Day (UTC t) \<noteq> Day (filedate w) then intRotate w ea else (None, w, ea)) = (failed, w2, e2)"
    by (metis prod_cases3)
  note A = time_Now_frame[OF t] and B = rotate_if_due[OF s] and C = body_Record_tail[OF assms t s]
  have "extends e e2" using A B extends_trans by blast
  then have em: "emitted e e1 = emitted ea e2 @ emitted e2 e1"
    using A B C emitted_trans[of e e2 e1] emitted_trans[of e ea e2] by simp
  have "(\<exists>x. (Lstat (filename w), x) \<in> set (emitted ea e2)) \<longleftrightarrow> Day (UTC t) \<noteq> Day (filedate w)"
  proof (cases "Day (UTC t) \<noteq> Day (filedate w)")
    case True
    then show ?thesis using s intRotate_lstat[of w ea failed w2 e2] by simp
  next
    case False
    then show ?thesis using s by (auto simp: emitted_def)
  qed
  then show ?thesis using em A C by (auto simp: UTC_def)
qed

text \<open>
  C1. The writer compares only the day of the month. A file opened on 15 January
  2024 and a record dequeued on 15 February 2024 have different dates, yet the
  writer does not rotate: its one call is the write of the record to the old file,
  and the date of the open file stays 15 January.
\<close>

theorem same_day_of_month_not_rotated:
  "filedate jan_writer = jan15 \<and> Month feb15 \<noteq> Month jan15 \<and> Day feb15 = Day jan15
   \<and> body (Record record_one) jan_writer (fresh_world (\<lambda>k. feb15) (\<lambda>k. None)) =
       (Next, jan_writer,
        (fresh_world (\<lambda>k. feb15) (\<lambda>k. None))\<lparr>ticks := 1, log := [(FileWrite 7 ''%M:15:one'', None)]\<rparr>)"
  unfolding body_def os_defs Let_def data_defs pad0_def
  by (simp add: digits.simps)

end
